theory Spec2Isabelle
  imports Complex_Main
begin

section \<open>The shapes publisher and subscriber\<close>

text \<open>
  A shallow embedding of \<^verbatim>\<open>src/c++11/shapes_publisher.cxx\<close> and
  \<^verbatim>\<open>src/c++11/shapes_subscriber.cxx\<close>. The DDS middleware and ncurses are
  external libraries: every call into them is recorded, in order, in a list of
  operations, and what they hand back (the samples of a take, the key of an instance, the
  shutdown flag set by the signal handler) is an argument of the model.
\<close>

subsection \<open>The data type on the bus\<close>

text \<open>
  \<^verbatim>\<open>ShapeTypeExtended\<close> and \<^verbatim>\<open>ShapeFillKind\<close> are declared in the generated
  header \<^verbatim>\<open>shapes.hpp\<close>; the two programs read and write the fields below and
  use the enumerator \<^verbatim>\<open>SOLID_FILL\<close> only.
\<close>

datatype ShapeFillKind =
  SOLID_FILL | TRANSPARENT_FILL | HORIZONTAL_HATCH_FILL | VERTICAL_HATCH_FILL

record ShapeTypeExtended =
  color :: string
  x :: int
  y :: int
  shapesize :: int
  fillKind :: ShapeFillKind

text \<open>An instance handle identifies the instance by the key of the registered data.\<close>

type_synonym InstanceHandle = string

subsection \<open>The publisher\<close>

text \<open>The limits of \<^verbatim>\<open>run_publisher_application\<close> (\<open>top\<close> is a constant of HOL).\<close>

definition left :: int where "left = 15"
definition top_limit :: int where "top_limit = 15"
definition right :: int where "right = 248"
definition bottom :: int where "bottom = 278"
definition shape_size :: int where "shape_size = 30"

text \<open>
  \<^verbatim>\<open>AMPLITUDE\<close> and \<^verbatim>\<open>FREQUENCY\<close> are \<^verbatim>\<open>float\<close> constants. Single-precision
  arithmetic is idealised as arithmetic on the reals: the products, the sine and the sum
  are exact here, where the program rounds each of them to the nearest \<^verbatim>\<open>float\<close>.
\<close>

definition AMPLITUDE :: real where "AMPLITUDE = 100"
definition FREQUENCY :: real where "FREQUENCY = 475 / 10000"

text \<open>Division of C++ \<^verbatim>\<open>int\<close>s truncates towards zero.\<close>

definition c_div :: "int \<Rightarrow> int \<Rightarrow> int" where
  "c_div a b = (if (a < 0) = (b < 0) then \<bar>a\<bar> div \<bar>b\<bar> else - (\<bar>a\<bar> div \<bar>b\<bar>))"

text \<open>The implicit conversion of a floating-point value to \<^verbatim>\<open>int\<close> drops the fraction.\<close>

definition float_to_int :: "real \<Rightarrow> int" where
  "float_to_int r = (if 0 \<le> r then \<lfloor>r\<rfloor> else \<lceil>r\<rceil>)"

text \<open>
  The body of the main loop, lines 68 to 74: \<^verbatim>\<open>if (++x > right) x = left-shape_size;\<close>
  and \<^verbatim>\<open>y = (int)(bottom - top) / 2 + AMPLITUDE * std::sin(FREQUENCY * x);\<close>. The cast
  binds tighter than the division, so the quotient is an integer one, and the sum is a
  floating-point value converted to \<^verbatim>\<open>int\<close> by the assignment.
\<close>

definition next_x :: "int \<Rightarrow> int" where
  "next_x xc = (let x1 = xc + 1 in if x1 > right then left - shape_size else x1)"

definition next_y :: "int \<Rightarrow> int" where
  "next_y xc =
     float_to_int (real_of_int (c_div (bottom - top_limit) 2)
                   + AMPLITUDE * sin (FREQUENCY * real_of_int xc))"

text \<open>The calls on the \<^verbatim>\<open>DataWriter\<close>, in the order they are made.\<close>

datatype writer_op =
  Register_instance ShapeTypeExtended
| Write ShapeTypeExtended
| Dispose_instance InstanceHandle

text \<open>
  The main loop. \<open>shutdown_requested n\<close> is the value of the flag
  \<^verbatim>\<open>application::shutdown_requested\<close> when the loop condition is evaluated for the
  \<open>n\<close>-th time (counting from 0); the condition is evaluated once per iteration, so
  that index is \<open>samples_written\<close>. \<open>samples_written\<close> stays below
  \<open>sample_count\<close>, so the \<^verbatim>\<open>unsigned int\<close> counter never wraps. The line
  printed on \<^verbatim>\<open>std::cout\<close> and the sleep of one second do not touch the writer and
  are left out.
\<close>

function publish_loop ::
  "(nat \<Rightarrow> bool) \<Rightarrow> nat \<Rightarrow> nat \<Rightarrow> int \<Rightarrow> int \<Rightarrow> ShapeTypeExtended \<Rightarrow> writer_op list"
where
  "publish_loop shutdown_requested sample_count samples_written xc yc data =
     (if \<not> shutdown_requested samples_written \<and> samples_written < sample_count then
        (let x1 = next_x xc;
             y1 = next_y x1;
             data1 = data\<lparr>x := x1, y := y1\<rparr>
         in Write data1 #
            publish_loop shutdown_requested sample_count (Suc samples_written) x1 y1 data1)
      else [])"
  by pat_completeness auto
termination
  by (relation "measure (\<lambda>(sd, sample_count, samples_written, r). sample_count - samples_written)")
     auto

declare publish_loop.simps [simp del]

text \<open>The initial value of \<^verbatim>\<open>y\<close>: \<^verbatim>\<open>bottom - top / 2\<close>.\<close>

definition y_initial :: int where
  "y_initial = bottom - c_div top_limit 2"

text \<open>
  \<^verbatim>\<open>run_publisher_application\<close>. \<open>data0\<close> is the default-constructed sample; the
  instance is registered with it before the colour is set. The domain id only selects the
  bus and is not an argument here.
\<close>

definition run_publisher_application ::
  "ShapeTypeExtended \<Rightarrow> (nat \<Rightarrow> bool) \<Rightarrow> nat \<Rightarrow> string \<Rightarrow> writer_op list"
where
  "run_publisher_application data0 shutdown_requested sample_count colour =
     (let instance_handle = color data0;
          data1 = data0\<lparr>color := colour, shapesize := shape_size, fillKind := SOLID_FILL\<rparr>
      in Register_instance data0 #
         publish_loop shutdown_requested sample_count 0 (left - shape_size) y_initial data1 @
         [Dispose_instance instance_handle])"

text \<open>The samples written, in order.\<close>

fun written :: "writer_op list \<Rightarrow> ShapeTypeExtended list" where
  "written [] = []"
| "written (Write d # ops) = d # written ops"
| "written (_ # ops) = written ops"

fun disposals :: "writer_op list \<Rightarrow> InstanceHandle list" where
  "disposals [] = []"
| "disposals (Dispose_instance h # ops) = h # disposals ops"
| "disposals (_ # ops) = disposals ops"

text \<open>
  Two courses of the shutdown flag: never set, and set from the \<open>t\<close>-th evaluation of
  the loop condition on (the signal handler sets the flag and nothing clears it).
\<close>

definition never_shutdown :: "nat \<Rightarrow> bool" where
  "never_shutdown n = False"

definition shutdown_at :: "nat \<Rightarrow> nat \<Rightarrow> bool" where
  "shutdown_at t n = (t \<le> n)"

text \<open>
  The formula of the specification for \<open>y\<close>, written after its words: the truncated half
  of \<open>bottom - top\<close> plus the rounded sine term.
\<close>

definition spec_y :: "int \<Rightarrow> int" where
  "spec_y xc =
     c_div (bottom - top_limit) 2 + round (AMPLITUDE * sin (FREQUENCY * real_of_int xc))"

text \<open>
  The sample of the \<open>n\<close>-th iteration in closed form (\<open>n\<close> counts from 0): the loop
  starts at \<open>left - shape_size = - 15\<close> and runs through the 264 values up to
  \<open>right\<close>. That the loop writes these samples is \<open>run_publisher_application_eq\<close>.
\<close>

definition tick_sample :: "ShapeTypeExtended \<Rightarrow> nat \<Rightarrow> ShapeTypeExtended" where
  "tick_sample d n = d\<lparr>x := - 15 + int (Suc n mod 264), y := next_y (- 15 + int (Suc n mod 264))\<rparr>"

subsection \<open>The subscriber\<close>

text \<open>
  The state of an instance and of a sample, as \<^verbatim>\<open>dds::sub::status\<close> reports them in
  the \<^verbatim>\<open>SampleInfo\<close> of a loaned sample.
\<close>

datatype InstanceState = alive | not_alive_disposed | not_alive_no_writers

datatype SampleState = read | not_read

record SampleInfo =
  valid :: bool
  instance_handle :: InstanceHandle
  instance_state :: InstanceState
  sample_state :: SampleState

record LoanedSample =
  info :: SampleInfo
  data :: ShapeTypeExtended

text \<open>
  A \<^verbatim>\<open>DataReader\<close> as \<^verbatim>\<open>process_data\<close> uses it: \<open>take_samples\<close> is the batch that
  \<^verbatim>\<open>reader.take()\<close> returns, \<open>key_value\<close> the sample that
  \<^verbatim>\<open>reader.key_value(key_shape, handle)\<close> fills in for an instance handle.
\<close>

record DataReader =
  take_samples :: "LoanedSample list"
  key_value :: "InstanceHandle \<Rightarrow> ShapeTypeExtended"

text \<open>
  What the subscriber takes from its surroundings. The namespace \<^verbatim>\<open>colours\<close> (the
  bounds \<^verbatim>\<open>MIN_COLOUR\<close> and \<^verbatim>\<open>MAX_COLOUR\<close>, the table \<^verbatim>\<open>ToStr\<close>, the
  enumerators \<^verbatim>\<open>YELLOW\<close> and \<^verbatim>\<open>ORANGE\<close>) is declared in a header that is not
  among the sources; \<^verbatim>\<open>has_colors()\<close> is the answer of ncurses; \<open>print_shape\<close> and
  \<open>print_instance_state\<close> are the texts that \<^verbatim>\<open>operator<<\<close> writes for a sample
  and for an instance state.
\<close>

record environment =
  MIN_COLOUR :: int
  MAX_COLOUR :: int
  ToStr :: "int \<Rightarrow> string"
  YELLOW :: int
  ORANGE :: int
  has_colors :: bool
  print_shape :: "ShapeTypeExtended \<Rightarrow> string"
  print_instance_state :: "InstanceState \<Rightarrow> string"

text \<open>The calls into ncurses, in the order they are made.\<close>

datatype attribute = COLOR_PAIR int | A_BOLD

datatype curses_op =
  Attron attribute
| Attroff attribute
| Mvaddstr int int string
| Refresh

text \<open>
  The state of the display: the ncurses calls made so far and the static deque
  \<^verbatim>\<open>log_data\<close>. The field \<open>calls\<close> is a history variable with no counterpart in the
  program: \<open>display_sample\<close> and \<open>display_log\<close> append their argument to it on
  entry, nothing reads it, and it serves to count the calls.
\<close>

datatype call = Display_sample ShapeTypeExtended | Display_log string

record display =
  terminal :: "curses_op list"
  log_data :: "string list"
  calls :: "call list"

definition initial_display :: display where
  "initial_display = \<lparr>terminal = [], log_data = [], calls = []\<rparr>"

definition log_y :: int where "log_y = 20"

text \<open>The loop of \<^verbatim>\<open>display_log\<close> over the deque, from row \<open>cur_y\<close> down.\<close>

fun display_log_lines :: "int \<Rightarrow> string list \<Rightarrow> curses_op list" where
  "display_log_lines cur_y [] = []"
| "display_log_lines cur_y (s # ss) = Mvaddstr cur_y 0 s # display_log_lines (cur_y + 1) ss"

definition display_log :: "string \<Rightarrow> display \<Rightarrow> display" where
  "display_log logline st =
     (let pushed = log_data st @ [logline];
          kept = (if length pushed > 5 then tl pushed else pushed)
      in st\<lparr>terminal := terminal st @ display_log_lines log_y kept @ [Refresh],
            log_data := kept,
            calls := calls st @ [Display_log logline]\<rparr>)"

text \<open>What \<^verbatim>\<open>display_sample\<close> sends to the terminal once the colour matches entry \<open>c\<close>.\<close>

definition render :: "environment \<Rightarrow> ShapeTypeExtended \<Rightarrow> int \<Rightarrow> curses_op list" where
  "render env shape c =
     (if has_colors env then
        Attron (COLOR_PAIR c) #
        (if c = YELLOW env \<or> c = ORANGE env then [Attron A_BOLD] else [])
      else []) @
     [Mvaddstr c 0 (color shape)] @
     (if has_colors env then [Attroff (COLOR_PAIR c), Attroff A_BOLD] else []) @
     [Mvaddstr c 10 (print_shape env shape), Refresh]"

text \<open>
  The loop of \<^verbatim>\<open>display_sample\<close>:
  \<^verbatim>\<open>for (int c = colours::MIN_COLOUR; c != colours::MAX_COLOUR; c++)\<close>. The test is an
  inequality, so a start beyond \<open>MAX_COLOUR\<close> never reaches it: the result is then
  \<open>None\<close>.
\<close>

partial_function (option) display_sample_loop ::
  "environment \<Rightarrow> ShapeTypeExtended \<Rightarrow> int \<Rightarrow> display \<Rightarrow> display option"
where
  "display_sample_loop env shape c st =
     (if c = MAX_COLOUR env then Some st
      else if color shape = ToStr env c then
        Some (st\<lparr>terminal := terminal st @ render env shape c\<rparr>)
      else display_sample_loop env shape (c + 1) st)"

definition display_sample :: "environment \<Rightarrow> ShapeTypeExtended \<Rightarrow> display \<Rightarrow> display option" where
  "display_sample env shape st =
     display_sample_loop env shape (MIN_COLOUR env)
       (st\<lparr>calls := calls st @ [Display_sample shape]\<rparr>)"

text \<open>
  The loop of \<^verbatim>\<open>process_data\<close> over the loaned samples. A batch holds fewer than
  \<open>2 ^ 31\<close> samples (its length is an \<^verbatim>\<open>int\<close>), so \<open>count\<close> does not overflow.
\<close>

fun process_samples ::
  "environment \<Rightarrow> (InstanceHandle \<Rightarrow> ShapeTypeExtended) \<Rightarrow> LoanedSample list \<Rightarrow> int \<Rightarrow> display
   \<Rightarrow> (int \<times> display) option"
where
  "process_samples env kv [] count st = Some (count, st)"
| "process_samples env kv (sample # samples) count st =
     (if valid (info sample) then
        (case display_sample env (data sample) st of
           None \<Rightarrow> None
         | Some st1 \<Rightarrow> process_samples env kv samples (count + 1) st1)
      else
        (let key_shape = kv (instance_handle (info sample)) in
         if instance_state (info sample) = not_alive_no_writers \<and>
            sample_state (info sample) = not_read
         then process_samples env kv samples count
                (display_log (''Instance with key '' @ color key_shape @
                              '' has dropped from the databus'') st)
         else process_samples env kv samples count
                (display_log (''Instance with key '' @ color key_shape @ '' changed to '' @
                              print_instance_state env (instance_state (info sample))) st)))"

definition process_data :: "environment \<Rightarrow> DataReader \<Rightarrow> display \<Rightarrow> (int \<times> display) option" where
  "process_data env reader st = process_samples env (key_value reader) (take_samples reader) 0 st"

text \<open>
  The loop of \<^verbatim>\<open>run_subscriber_application\<close>. \<open>shutdown_requested n\<close> is the flag at
  the \<open>n\<close>-th evaluation of the loop condition, \<open>dispatch n\<close> what the \<open>n\<close>-th call
  of \<^verbatim>\<open>waitset.dispatch\<close> does: \<open>None\<close> when it times out, \<open>Some reader\<close> when it
  runs the handler of the read condition. \<^verbatim>\<open>samples_read\<close> is an \<^verbatim>\<open>unsigned int\<close>:
  the addition wraps at \<open>2 ^ 32\<close>. The loop may run forever; the result holds the number
  of calls of \<^verbatim>\<open>dispatch\<close>, \<^verbatim>\<open>samples_read\<close> and the display.
\<close>

partial_function (option) subscriber_loop ::
  "environment \<Rightarrow> (nat \<Rightarrow> bool) \<Rightarrow> (nat \<Rightarrow> DataReader option) \<Rightarrow> nat \<Rightarrow> nat \<Rightarrow> nat \<Rightarrow> display
   \<Rightarrow> (nat \<times> nat \<times> display) option"
where
  "subscriber_loop env shutdown_requested dispatch sample_count n samples_read st =
     (if \<not> shutdown_requested n \<and> samples_read < sample_count then
        (case dispatch n of
           None \<Rightarrow> subscriber_loop env shutdown_requested dispatch sample_count (Suc n) samples_read st
         | Some reader \<Rightarrow>
             (case process_data env reader st of
                None \<Rightarrow> None
              | Some (count, st1) \<Rightarrow>
                  subscriber_loop env shutdown_requested dispatch sample_count (Suc n)
                    ((samples_read + nat count) mod 2 ^ 32) st1))
      else Some (n, samples_read, st))"

definition run_subscriber_application ::
  "environment \<Rightarrow> (nat \<Rightarrow> bool) \<Rightarrow> (nat \<Rightarrow> DataReader option) \<Rightarrow> nat \<Rightarrow> display
   \<Rightarrow> (nat \<times> nat \<times> display) option"
where
  "run_subscriber_application env shutdown_requested dispatch sample_count st =
     subscriber_loop env shutdown_requested dispatch sample_count 0 0 st"

text \<open>
  The rule of section 4.3 of the specification for a notification without valid data,
  written after its words: the message for the key of the instance, by instance state and
  sample state.
\<close>

definition spec_lifecycle_message :: "environment \<Rightarrow> DataReader \<Rightarrow> LoanedSample \<Rightarrow> string" where
  "spec_lifecycle_message env reader sample =
     (if instance_state (info sample) = not_alive_no_writers \<and>
         sample_state (info sample) = not_read
      then ''Instance with key '' @ color (key_value reader (instance_handle (info sample))) @
           '' has dropped from the databus''
      else ''Instance with key '' @ color (key_value reader (instance_handle (info sample))) @
           '' changed to '' @ print_instance_state env (instance_state (info sample)))"

text \<open>
  The position of the first entry of the palette that equals the colour of a shape, if
  there is one.
\<close>

definition first_match :: "environment \<Rightarrow> ShapeTypeExtended \<Rightarrow> int option" where
  "first_match env shape =
     find (\<lambda>c. color shape = ToStr env c) [MIN_COLOUR env..MAX_COLOUR env - 1]"

text \<open>What a list of ncurses calls writes to row \<open>r\<close>: column and text, in order.\<close>

fun row_writes :: "int \<Rightarrow> curses_op list \<Rightarrow> (int \<times> string) list" where
  "row_writes r [] = []"
| "row_writes r (Mvaddstr row col s # ops) =
     (if row = r then (col, s) # row_writes r ops else row_writes r ops)"
| "row_writes r (_ # ops) = row_writes r ops"

text \<open>The arguments of the recorded calls of \<open>display_sample\<close> and of \<open>display_log\<close>.\<close>

fun shown :: "call list \<Rightarrow> ShapeTypeExtended list" where
  "shown [] = []"
| "shown (Display_sample shape # cs) = shape # shown cs"
| "shown (_ # cs) = shown cs"

fun logged :: "call list \<Rightarrow> string list" where
  "logged [] = []"
| "logged (Display_log logline # cs) = logline # logged cs"
| "logged (_ # cs) = logged cs"

subsection \<open>An environment for the examples\<close>

text \<open>
  The eight colours that \<^verbatim>\<open>main\<close> of the subscriber names, numbered from 0 in the
  order of its \<^verbatim>\<open>init_pair\<close> calls. The numbering of the missing header may differ;
  the theorems hold for every environment, and this one only serves as a concrete input.
\<close>

definition example_ToStr :: "int \<Rightarrow> string" where
  "example_ToStr c =
     (if c = 0 then ''PURPLE'' else if c = 1 then ''BLUE'' else if c = 2 then ''RED''
      else if c = 3 then ''GREEN'' else if c = 4 then ''YELLOW'' else if c = 5 then ''CYAN''
      else if c = 6 then ''MAGENTA'' else if c = 7 then ''ORANGE'' else [])"

fun example_print_instance_state :: "InstanceState \<Rightarrow> string" where
  "example_print_instance_state alive = ''ALIVE''"
| "example_print_instance_state not_alive_disposed = ''NOT_ALIVE_DISPOSED''"
| "example_print_instance_state not_alive_no_writers = ''NOT_ALIVE_NO_WRITERS''"

definition example_env :: environment where
  "example_env =
     \<lparr>MIN_COLOUR = 0, MAX_COLOUR = 8, ToStr = example_ToStr, YELLOW = 4, ORANGE = 7,
      has_colors = True, print_shape = color,
      print_instance_state = example_print_instance_state\<rparr>"

definition default_shape :: ShapeTypeExtended where
  "default_shape = \<lparr>color = [], x = 0, y = 0, shapesize = 0, fillKind = SOLID_FILL\<rparr>"

definition red_sample :: LoanedSample where
  "red_sample =
     \<lparr>info = \<lparr>valid = True, instance_handle = ''RED'', instance_state = alive,
              sample_state = not_read\<rparr>,
      data = \<lparr>color = ''RED'', x = 1, y = 135, shapesize = 30, fillKind = SOLID_FILL\<rparr>\<rparr>"

definition red_dropped :: LoanedSample where
  "red_dropped =
     \<lparr>info = \<lparr>valid = False, instance_handle = ''RED'', instance_state = not_alive_no_writers,
              sample_state = not_read\<rparr>,
      data = default_shape\<rparr>"

definition example_reader :: DataReader where
  "example_reader =
     \<lparr>take_samples = [red_sample, red_dropped],
      key_value = (\<lambda>h. default_shape\<lparr>color := h\<rparr>)\<rparr>"

definition example_dispatch :: "nat \<Rightarrow> DataReader option" where
  "example_dispatch n = Some example_reader"

section \<open>Properties of the publisher\<close>

lemma publish_loop_initial_y:
  "publish_loop sd sc n xc yc d = publish_loop sd sc n xc yc' d"
  by (rule trans [OF publish_loop.simps publish_loop.simps [symmetric]])

lemma publish_loop_stop:
  "sd n \<or> sc \<le> n \<Longrightarrow> publish_loop sd sc n xc yc d = []"
  by (subst publish_loop.simps) auto

lemma publish_loop_go:
  "\<not> sd n \<Longrightarrow> n < sc \<Longrightarrow>
   publish_loop sd sc n xc yc d =
     Write (d\<lparr>x := next_x xc, y := next_y (next_x xc)\<rparr>) #
     publish_loop sd sc (Suc n) (next_x xc) (next_y (next_x xc))
       (d\<lparr>x := next_x xc, y := next_y (next_x xc)\<rparr>)"
  by (subst publish_loop.simps) (simp add: Let_def)

lemma upt_shift: "[1..<Suc (Suc m)] = 1 # map Suc [1..<Suc m]"
proof -
  have "[1..<Suc (Suc m)] = 1 # [Suc 1..<Suc (Suc m)]"
    by (rule upt_conv_Cons) simp
  also have "[Suc 1..<Suc (Suc m)] = map Suc [1..<Suc m]"
    by (rule map_Suc_upt [symmetric])
  finally show ?thesis .
qed

lemma publish_loop_eq:
  assumes "n \<le> t" "t \<le> sc" "\<forall>i. n \<le> i \<and> i < t \<longrightarrow> \<not> sd i" "t = sc \<or> sd t"
  shows "publish_loop sd sc n xc yc d =
         map (\<lambda>k. Write (d\<lparr>x := (next_x ^^ k) xc, y := next_y ((next_x ^^ k) xc)\<rparr>))
             [1..<Suc (t - n)]"
  using assms
proof (induction "t - n" arbitrary: n xc yc d)
  case 0
  then have "n = t" by simp
  with 0 have "sd n \<or> sc \<le> n" by auto
  then have "publish_loop sd sc n xc yc d = []"
    by (rule publish_loop_stop)
  with \<open>n = t\<close> show ?case by simp
next
  case (Suc m)
  then have lt: "n < t" and m: "m = t - Suc n" by simp_all
  from Suc.prems lt have go: "\<not> sd n" "n < sc" by auto
  let ?x1 = "next_x xc"
  let ?d1 = "d\<lparr>x := ?x1, y := next_y ?x1\<rparr>"
  have ih: "publish_loop sd sc (Suc n) ?x1 (next_y ?x1) ?d1 =
         map (\<lambda>k. Write (?d1\<lparr>x := (next_x ^^ k) ?x1, y := next_y ((next_x ^^ k) ?x1)\<rparr>))
             [1..<Suc m]"
    unfolding m using Suc.prems lt by (intro Suc.hyps(1) [OF m]) auto
  have tn: "t - n = Suc m" using Suc.hyps(2) by simp
  have sw: "(next_x ^^ k) ?x1 = (next_x ^^ Suc k) xc" for k
    by (simp add: funpow_swap1)
  show ?case
    unfolding publish_loop_go [of sd n sc xc yc d, OF go] ih tn upt_shift sw
    by (simp add: comp_def)
qed

lemma next_x_step:
  assumes "m < 264"
  shows "next_x (- 15 + int m) = - 15 + int (Suc m mod 264)"
proof (cases "m = 263")
  case True
  then show ?thesis
    by (simp add: next_x_def left_def right_def shape_size_def Let_def)
next
  case False
  with assms have "Suc m < 264" by simp
  then have "Suc m mod 264 = Suc m" by simp
  with \<open>Suc m < 264\<close> show ?thesis
    by (simp add: next_x_def left_def right_def shape_size_def Let_def)
qed

lemma next_x_closed:
  "(next_x ^^ k) (- 15) = - 15 + int (k mod 264)"
proof (induction k)
  case 0
  then show ?case by simp
next
  case (Suc k)
  have "(next_x ^^ Suc k) (- 15) = next_x (- 15 + int (k mod 264))"
    using Suc by simp
  also have "\<dots> = - 15 + int (Suc (k mod 264) mod 264)"
    by (rule next_x_step) simp
  also have "Suc (k mod 264) mod 264 = Suc k mod 264"
    by (rule mod_Suc_eq)
  finally show ?case .
qed

lemma sin_cubic_bound: "\<bar>sin (t::real) - t\<bar> \<le> \<bar>t\<bar> ^ 3 / 6"
proof -
  have "(\<Sum>m<3. sin_coeff m * t ^ m) = t"
    by (simp add: numeral_3_eq_3 sin_coeff_def)
  moreover have "inverse (fact 3) * \<bar>t\<bar> ^ 3 = \<bar>t\<bar> ^ 3 / 6"
    by (simp add: numeral_3_eq_3)
  ultimately show ?thesis
    using Maclaurin_sin_bound [of t 3] by (simp only:)
qed

lemma sin_FREQUENCY:
  "4748 / 100000 \<le> sin FREQUENCY \<and> sin FREQUENCY \<le> 4752 / 100000"
proof -
  define s where "s = sin FREQUENCY"
  have "\<bar>FREQUENCY\<bar> ^ 3 / 6 \<le> 2 / 100000"
    by (simp add: FREQUENCY_def power3_eq_cube)
  with sin_cubic_bound [of FREQUENCY] have "\<bar>s - FREQUENCY\<bar> \<le> 2 / 100000"
    unfolding s_def by (rule order_trans)
  moreover have "FREQUENCY = 4750 / 100000"
    by (simp add: FREQUENCY_def)
  ultimately have "4748 / 100000 \<le> s \<and> s \<le> 4752 / 100000"
    by linarith
  then show ?thesis by (simp only: s_def)
qed

lemma half_extent: "c_div (bottom - top_limit) 2 = 131"
  by (simp add: c_div_def bottom_def top_limit_def)

lemma next_y_floor:
  "next_y xc = 131 + \<lfloor>100 * sin (FREQUENCY * real_of_int xc)\<rfloor>"
proof -
  define s where "s = sin (FREQUENCY * real_of_int xc)"
  have "- 1 \<le> s" unfolding s_def by (rule sin_ge_minus_one)
  then have nonneg: "0 \<le> 131 + 100 * s" by linarith
  have "next_y xc = float_to_int (131 + 100 * s)"
    by (simp only: next_y_def half_extent AMPLITUDE_def s_def of_int_numeral)
  also have "\<dots> = \<lfloor>131 + 100 * s\<rfloor>"
    using nonneg by (simp only: float_to_int_def if_True)
  also have "\<dots> = 131 + \<lfloor>100 * s\<rfloor>"
    by (rule floor_unique) linarith+
  finally show ?thesis by (simp only: s_def)
qed

lemma next_y_bounds: "31 \<le> next_y xc \<and> next_y xc \<le> 231"
proof -
  define s where "s = sin (FREQUENCY * real_of_int xc)"
  have "- 1 \<le> s" "s \<le> 1" unfolding s_def by (rule sin_ge_minus_one, rule sin_le_one)
  then have "- 100 \<le> \<lfloor>100 * s\<rfloor>" "\<lfloor>100 * s\<rfloor> \<le> 100"
    by linarith+
  then show ?thesis
    unfolding next_y_floor s_def [symmetric] by linarith
qed

lemma next_y_one: "next_y 1 = 135"
proof -
  define s where "s = sin FREQUENCY"
  have "4748 / 100000 \<le> s" "s \<le> 4752 / 100000"
    using sin_FREQUENCY by (simp_all only: s_def)
  then have "\<lfloor>100 * s\<rfloor> = 4"
    by linarith
  then show ?thesis
    unfolding next_y_floor [of 1] by (simp add: s_def)
qed

lemma round_one: "round (AMPLITUDE * sin (FREQUENCY * real_of_int 1)) = 5"
proof -
  define s where "s = sin FREQUENCY"
  have "4748 / 100000 \<le> s" "s \<le> 4752 / 100000"
    using sin_FREQUENCY by (simp_all only: s_def)
  then have "\<lfloor>100 * s + 1 / 2\<rfloor> = 5"
    by linarith
  then show ?thesis
    by (simp add: round_def AMPLITUDE_def s_def)
qed

lemma exit_index:
  "\<exists>t\<le>sc. (\<forall>i<t. \<not> sd i) \<and> (t = sc \<or> sd t)" for sc :: nat
proof -
  define t where "t = (LEAST i. i = sc \<or> sd i)"
  have 1: "t = sc \<or> sd t"
    unfolding t_def by (rule LeastI [of _ sc]) simp
  have 2: "t \<le> sc"
    unfolding t_def by (rule Least_le) simp
  have 3: "\<not> sd i" if "i < t" for i
    using that not_less_Least [of i "\<lambda>i. i = sc \<or> sd i"] unfolding t_def by auto
  from 1 2 3 show ?thesis by blast
qed

lemma upt_from_one: "[1..<Suc t] = map Suc [0..<t]"
  by (simp only: map_Suc_upt One_nat_def)

lemma written_map_Write: "written (map (\<lambda>n. Write (f n)) ns) = map f ns"
  by (induction ns) simp_all

lemma written_append: "written (ops @ ops') = written ops @ written ops'"
  by (induction ops rule: written.induct) simp_all

lemma run_publisher_application_eq:
  assumes "t \<le> sc" "\<forall>i<t. \<not> sd i" "t = sc \<or> sd t"
  shows "run_publisher_application d0 sd sc colour =
         Register_instance d0 #
         map (\<lambda>n. Write (tick_sample
               (d0\<lparr>color := colour, shapesize := shape_size, fillKind := SOLID_FILL\<rparr>) n)) [0..<t] @
         [Dispose_instance (color d0)]"
proof -
  have start: "left - shape_size = - 15"
    by (simp add: left_def shape_size_def)
  have "publish_loop sd sc 0 (- 15) y_initial d =
        map (\<lambda>k. Write (d\<lparr>x := (next_x ^^ k) (- 15), y := next_y ((next_x ^^ k) (- 15))\<rparr>))
            [1..<Suc (t - 0)]" for d
    using assms by (intro publish_loop_eq) auto
  then have "publish_loop sd sc 0 (- 15) y_initial d = map (\<lambda>n. Write (tick_sample d n)) [0..<t]" for d
    by (simp only: next_x_closed upt_from_one map_map comp_def tick_sample_def diff_zero)
  then show ?thesis
    by (simp only: run_publisher_application_def Let_def start)
qed

lemma written_run:
  assumes "t \<le> sc" "\<forall>i<t. \<not> sd i" "t = sc \<or> sd t"
  shows "written (run_publisher_application d0 sd sc colour) =
         map (tick_sample (d0\<lparr>color := colour, shapesize := shape_size, fillKind := SOLID_FILL\<rparr>)) [0..<t]"
  unfolding run_publisher_application_eq [OF assms]
  by (simp add: written_append written_map_Write)



lemma length_written_run:
  assumes "\<forall>i<t. \<not> sd i" "sd t \<or> sc \<le> t"
  shows "length (written (run_publisher_application d0 sd sc colour)) = min sc t"
proof -
  have "min sc t \<le> sc" "\<forall>i<min sc t. \<not> sd i" "min sc t = sc \<or> sd (min sc t)"
    using assms by (auto simp: min_def)
  then show ?thesis by (simp only: written_run length_map length_upt diff_zero)
qed

lemma nth_written_run:
  assumes "n < length (written (run_publisher_application d0 sd sc colour))"
  shows "written (run_publisher_application d0 sd sc colour) ! n =
         tick_sample (d0\<lparr>color := colour, shapesize := shape_size, fillKind := SOLID_FILL\<rparr>) n"
proof -
  obtain t where t: "t \<le> sc" "\<forall>i<t. \<not> sd i" "t = sc \<or> sd t"
    using exit_index [of sc sd] by blast
  from assms show ?thesis
    unfolding written_run [OF t] by simp
qed

lemma x_tick_sample: "x (tick_sample d n) = - 15 + int (Suc n mod 264)"
  by (simp add: tick_sample_def)

lemma y_tick_sample: "y (tick_sample d n) = next_y (x (tick_sample d n))"
  by (simp add: tick_sample_def)

section \<open>Properties of the subscriber\<close>

lemma display_sample_loop_find:
  assumes "c \<le> MAX_COLOUR env"
  shows "display_sample_loop env shape c st =
         Some (case find (\<lambda>i. color shape = ToStr env i) [c..MAX_COLOUR env - 1] of
                 None \<Rightarrow> st
               | Some i \<Rightarrow> st\<lparr>terminal := terminal st @ render env shape i\<rparr>)"
  using assms
proof (induction "nat (MAX_COLOUR env - c)" arbitrary: c)
  case 0
  then have "c = MAX_COLOUR env" by simp
  then show ?case
    by (subst display_sample_loop.simps) simp
next
  case (Suc m)
  then have lt: "c < MAX_COLOUR env" by linarith
  then have up: "[c..MAX_COLOUR env - 1] = c # [c + 1..MAX_COLOUR env - 1]"
    by (simp add: upto_rec1)
  have ih: "display_sample_loop env shape (c + 1) st =
         Some (case find (\<lambda>i. color shape = ToStr env i) [c + 1..MAX_COLOUR env - 1] of
                 None \<Rightarrow> st
               | Some i \<Rightarrow> st\<lparr>terminal := terminal st @ render env shape i\<rparr>)"
    using Suc.hyps(2) lt by (intro Suc.hyps(1)) linarith+
  show ?case
    using lt by (subst display_sample_loop.simps) (simp add: up ih)
qed

lemma display_sample_eq:
  assumes "MIN_COLOUR env \<le> MAX_COLOUR env"
  shows "display_sample env shape st =
         Some (case first_match env shape of
                 None \<Rightarrow> st\<lparr>calls := calls st @ [Display_sample shape]\<rparr>
               | Some c \<Rightarrow> st\<lparr>terminal := terminal st @ render env shape c,
                              calls := calls st @ [Display_sample shape]\<rparr>)"
  unfolding display_sample_def display_sample_loop_find [OF assms] first_match_def
  by (simp split: option.split)

lemma first_match_None:
  "first_match env shape = None \<longleftrightarrow>
   (\<forall>c. MIN_COLOUR env \<le> c \<and> c < MAX_COLOUR env \<longrightarrow> color shape \<noteq> ToStr env c)"
  unfolding first_match_def find_None_iff by auto

lemma find_upto_Some:
  "find P [a..b] = Some c \<longleftrightarrow> a \<le> c \<and> c \<le> b \<and> P c \<and> (\<forall>i. a \<le> i \<and> i < c \<longrightarrow> \<not> P i)"
proof (induction "nat (b + 1 - a)" arbitrary: a)
  case 0
  then have "b < a" by simp
  then show ?case by auto
next
  case (Suc m)
  then have le: "a \<le> b" by linarith
  then have up: "[a..b] = a # [a + 1..b]"
    by (simp add: upto_rec1)
  have ih: "find P [a + 1..b] = Some c \<longleftrightarrow>
      a + 1 \<le> c \<and> c \<le> b \<and> P c \<and> (\<forall>i. a + 1 \<le> i \<and> i < c \<longrightarrow> \<not> P i)"
    using Suc.hyps(2) by (intro Suc.hyps(1)) linarith
  show ?case
  proof (cases "P a")
    case True
    then show ?thesis
      unfolding up using le by (auto simp: not_less)
  next
    case False
    have "(\<forall>i. a \<le> i \<and> i < c \<longrightarrow> \<not> P i) \<longleftrightarrow> (\<forall>i. a + 1 \<le> i \<and> i < c \<longrightarrow> \<not> P i)"
      using False by (metis add1_zle_eq order_le_less)
    moreover have "a \<le> c \<and> P c \<longleftrightarrow> a + 1 \<le> c \<and> P c"
      using False by (metis add1_zle_eq order_le_less)
    ultimately show ?thesis
      unfolding up using False ih by auto
  qed
qed

lemma first_match_Some:
  "first_match env shape = Some c \<longleftrightarrow>
   MIN_COLOUR env \<le> c \<and> c < MAX_COLOUR env \<and> color shape = ToStr env c \<and>
   (\<forall>i. MIN_COLOUR env \<le> i \<and> i < c \<longrightarrow> color shape \<noteq> ToStr env i)"
  unfolding first_match_def find_upto_Some by auto

lemma row_writes_append: "row_writes r (ops @ ops') = row_writes r ops @ row_writes r ops'"
  by (induction r ops rule: row_writes.induct) simp_all

lemma row_writes_render:
  "row_writes r (render env shape c) =
   (if r = c then [(0, color shape), (10, print_shape env shape)] else [])"
  by (simp add: render_def row_writes_append)


lemma logged_append: "logged (cs @ cs') = logged cs @ logged cs'"
  by (induction cs rule: logged.induct) simp_all

lemma shown_append: "shown (cs @ cs') = shown cs @ shown cs'"
  by (induction cs rule: shown.induct) simp_all

lemma display_sample_effect:
  assumes "MIN_COLOUR env \<le> MAX_COLOUR env"
  shows "\<exists>st'. display_sample env shape st = Some st' \<and>
           calls st' = calls st @ [Display_sample shape] \<and> log_data st' = log_data st"
  unfolding display_sample_eq [OF assms] by (simp split: option.split)

lemma log_data_display_log:
  "log_data (display_log m st) =
   (if length (log_data st) < 5 then log_data st @ [m] else tl (log_data st) @ [m])"
proof (cases "log_data st")
  case Nil
  then show ?thesis by (simp add: display_log_def Let_def)
next
  case (Cons a as)
  then show ?thesis by (simp add: display_log_def Let_def)
qed

lemma calls_display_log: "calls (display_log m st) = calls st @ [Display_log m]"
  by (simp add: display_log_def Let_def)

lemma log_data_fold_cong:
  "log_data st = log_data st' \<Longrightarrow>
   log_data (fold display_log ms st) = log_data (fold display_log ms st')"
proof (induction ms arbitrary: st st')
  case Nil
  then show ?case by simp
next
  case (Cons m ms)
  have "log_data (display_log m st) = log_data (display_log m st')"
    using Cons.prems by (simp add: log_data_display_log)
  then have "log_data (fold display_log ms (display_log m st)) =
             log_data (fold display_log ms (display_log m st'))"
    by (rule Cons.IH)
  then show ?case
    by (simp only: fold_simps comp_apply)
qed

lemma log_data_fold:
  assumes "length (log_data st) \<le> 5"
  shows "log_data (fold display_log ms st) =
         drop (length (log_data st @ ms) - 5) (log_data st @ ms)"
  using assms
proof (induction ms arbitrary: st)
  case Nil
  then show ?case by simp
next
  case (Cons m ms)
  let ?L = "log_data st"
  let ?L' = "log_data (display_log m st)"
  have len: "length ?L' \<le> 5"
    using Cons.prems by (simp add: log_data_display_log)
  have "log_data (fold display_log (m # ms) st) = drop (length (?L' @ ms) - 5) (?L' @ ms)"
    by (simp only: fold_simps comp_apply Cons.IH [OF len])
  also have "\<dots> = drop (length (?L @ m # ms) - 5) (?L @ m # ms)"
  proof (cases "length ?L < 5")
    case True
    then show ?thesis by (simp add: log_data_display_log)
  next
    case False
    with Cons.prems have five: "length ?L = 5" by simp
    then obtain a as where L: "?L = a # as" by (cases ?L) auto
    with five have "length as = 4" by simp
    then show ?thesis
      using False by (simp add: log_data_display_log L)
  qed
  finally show ?case .
qed

lemma process_samples_eq:
  assumes "MIN_COLOUR env \<le> MAX_COLOUR env"
  shows "\<exists>st'. process_samples env (key_value reader) samples count st =
                 Some (count + int (length (filter (\<lambda>s. valid (info s)) samples)), st') \<and>
           calls st' = calls st @
             map (\<lambda>s. if valid (info s) then Display_sample (data s)
                       else Display_log (spec_lifecycle_message env reader s)) samples \<and>
           log_data st' =
             log_data (fold display_log
               (map (spec_lifecycle_message env reader) (filter (\<lambda>s. \<not> valid (info s)) samples)) st)"
proof (induction samples arbitrary: count st)
  case Nil
  then show ?case by simp
next
  case (Cons s samples)
  show ?case
  proof (cases "valid (info s)")
    case True
    from display_sample_effect [OF assms, of "data s" st]
    obtain st1 where st1: "display_sample env (data s) st = Some st1"
      "calls st1 = calls st @ [Display_sample (data s)]" "log_data st1 = log_data st"
      by blast
    from Cons.IH [of "count + 1" st1] obtain st' where
      st': "process_samples env (key_value reader) samples (count + 1) st1 =
              Some (count + 1 + int (length (filter (\<lambda>s. valid (info s)) samples)), st')"
        "calls st' = calls st1 @
             map (\<lambda>s. if valid (info s) then Display_sample (data s)
                       else Display_log (spec_lifecycle_message env reader s)) samples"
        "log_data st' =
             log_data (fold display_log
               (map (spec_lifecycle_message env reader) (filter (\<lambda>s. \<not> valid (info s)) samples)) st1)"
      by blast
    have "log_data st' =
             log_data (fold display_log
               (map (spec_lifecycle_message env reader) (filter (\<lambda>s. \<not> valid (info s)) samples)) st)"
      unfolding st'(3) using st1(3) by (rule log_data_fold_cong)
    with True st1 st' show ?thesis by simp
  next
    case False
    let ?m = "spec_lifecycle_message env reader s"
    have step: "process_samples env (key_value reader) (s # samples) count st =
                process_samples env (key_value reader) samples count (display_log ?m st)"
      using False by (simp add: spec_lifecycle_message_def Let_def)
    from Cons.IH [of count "display_log ?m st"] obtain st' where
      st': "process_samples env (key_value reader) samples count (display_log ?m st) =
              Some (count + int (length (filter (\<lambda>s. valid (info s)) samples)), st')"
        "calls st' = calls (display_log ?m st) @
             map (\<lambda>s. if valid (info s) then Display_sample (data s)
                       else Display_log (spec_lifecycle_message env reader s)) samples"
        "log_data st' =
             log_data (fold display_log
               (map (spec_lifecycle_message env reader) (filter (\<lambda>s. \<not> valid (info s)) samples))
               (display_log ?m st))"
      by blast
    with False show ?thesis
      unfolding step by (simp add: calls_display_log)
  qed
qed

lemma logged_map_calls:
  "logged (map (\<lambda>s. if P s then Display_sample (f s) else Display_log (g s)) samples) =
   map g (filter (\<lambda>s. \<not> P s) samples)"
  by (induction samples) simp_all

lemma shown_map_calls:
  "shown (map (\<lambda>s. if P s then Display_sample (f s) else Display_log (g s)) samples) =
   map f (filter P samples)"
  by (induction samples) simp_all

section \<open>The claims\<close>

subsection \<open>Claims about the publisher\<close>

text \<open>
  Claim C3. Let the shutdown flag be clear at the first \<open>t\<close> evaluations of the loop
  condition, and let it be set at the next one unless the count is reached by then. The
  publisher then writes exactly \<open>min sample_count t\<close> samples, and after them, on
  either way out of the loop, disposes the instance exactly once: the calls on the writer
  are the registration, the writes and one \<^verbatim>\<open>dispose_instance\<close>, in this order.
\<close>

theorem publish_loop_writes_then_dispose:
  assumes "\<forall>i<t. \<not> shutdown_requested i"
    and "shutdown_requested t \<or> sample_count \<le> t"
  shows "run_publisher_application d0 shutdown_requested sample_count colour =
           Register_instance d0 #
           map Write (written (run_publisher_application d0 shutdown_requested sample_count colour)) @
           [Dispose_instance (color d0)]
         \<and> length (written (run_publisher_application d0 shutdown_requested sample_count colour)) =
           min sample_count t
         \<and> disposals (run_publisher_application d0 shutdown_requested sample_count colour) =
           [color d0]"
proof -
  let ?t = "min sample_count t"
  have t: "?t \<le> sample_count" "\<forall>i<?t. \<not> shutdown_requested i"
    "?t = sample_count \<or> shutdown_requested ?t"
    using assms by (auto simp: min_def)
  have "map (\<lambda>n. Write (f n)) ns = map Write (map f ns)" for f :: "nat \<Rightarrow> ShapeTypeExtended" and ns
    by simp
  moreover have "disposals (map (\<lambda>n. Write (f n)) ns @ ops) = disposals ops"
    for f :: "nat \<Rightarrow> ShapeTypeExtended" and ns ops
    by (induction ns) simp_all
  ultimately show ?thesis
    unfolding written_run [OF t] by (simp add: run_publisher_application_eq [OF t])
qed

text \<open>Five samples asked for, the flag set at the third test: two writes, one disposal.\<close>

theorem publish_loop_writes_then_dispose_witness:
  "length (written (run_publisher_application
      \<lparr>color = [], x = 0, y = 0, shapesize = 0, fillKind = SOLID_FILL\<rparr> (shutdown_at 2) 5 ''RED'')) = 2 \<and>
   disposals (run_publisher_application
      \<lparr>color = [], x = 0, y = 0, shapesize = 0, fillKind = SOLID_FILL\<rparr> (shutdown_at 2) 5 ''RED'') = [[]]"
proof -
  have h1: "\<forall>i<2. \<not> shutdown_at 2 i" by (simp add: shutdown_at_def)
  have h2: "shutdown_at 2 2 \<or> (5::nat) \<le> 2" by (simp add: shutdown_at_def)
  from publish_loop_writes_then_dispose [OF h1 h2, of
      "\<lparr>color = [], x = 0, y = 0, shapesize = 0, fillKind = SOLID_FILL\<rparr>" "''RED''"]
  have "length (written (run_publisher_application
      \<lparr>color = [], x = 0, y = 0, shapesize = 0, fillKind = SOLID_FILL\<rparr> (shutdown_at 2) 5 ''RED'')) = 2"
    and "disposals (run_publisher_application
      \<lparr>color = [], x = 0, y = 0, shapesize = 0, fillKind = SOLID_FILL\<rparr> (shutdown_at 2) 5 ''RED'') = [[]]"
    by simp_all
  then show ?thesis by blast
qed


text \<open>
  Claim C4. The \<open>x\<close> of the \<open>n\<close>-th sample written is the previous one plus 1 (the
  start \<open>left - shape_size\<close> for the first sample), reset to \<open>left - shape_size\<close> when
  that sum exceeds \<open>right\<close>; in closed form it is \<open>left - shape_size + (n + 1) mod 264\<close>,
  and it lies between \<open>left - shape_size\<close> and \<open>right\<close>.
\<close>

theorem published_x_sequence:
  assumes "n < length (written (run_publisher_application d0 sd sc colour))"
  shows "x (written (run_publisher_application d0 sd sc colour) ! n) =
           (if (if n = 0 then left - shape_size
                else x (written (run_publisher_application d0 sd sc colour) ! (n - 1))) + 1 > right
            then left - shape_size
            else (if n = 0 then left - shape_size
                  else x (written (run_publisher_application d0 sd sc colour) ! (n - 1))) + 1)
         \<and> x (written (run_publisher_application d0 sd sc colour) ! n) =
           left - shape_size + int (Suc n mod 264)
         \<and> left - shape_size \<le> x (written (run_publisher_application d0 sd sc colour) ! n)
         \<and> x (written (run_publisher_application d0 sd sc colour) ! n) \<le> right"
proof -
  let ?ws = "written (run_publisher_application d0 sd sc colour)"
  let ?prev = "if n = 0 then left - shape_size else x (?ws ! (n - 1))"
  have cur: "x (?ws ! n) = - 15 + int (Suc n mod 264)"
    by (simp only: nth_written_run [OF assms] x_tick_sample)
  have prev: "?prev = - 15 + int (n mod 264)"
  proof (cases n)
    case 0
    then show ?thesis by (simp add: left_def shape_size_def)
  next
    case (Suc m)
    with assms have "m < length ?ws" by simp
    then have "x (?ws ! m) = - 15 + int (Suc m mod 264)"
      by (simp only: nth_written_run x_tick_sample)
    with Suc show ?thesis by simp
  qed
  have "next_x ?prev = - 15 + int (Suc (n mod 264) mod 264)"
    unfolding prev by (rule next_x_step) simp
  also have "Suc (n mod 264) mod 264 = Suc n mod 264"
    by (rule mod_Suc_eq)
  finally have step: "x (?ws ! n) = next_x ?prev"
    using cur by simp
  have "Suc n mod 264 < 264" by simp
  then have range: "- 15 \<le> x (?ws ! n) \<and> x (?ws ! n) \<le> 248"
    unfolding cur by linarith
  have 1: "x (?ws ! n) = (if ?prev + 1 > right then left - shape_size else ?prev + 1)"
    unfolding step by (simp only: next_x_def Let_def)
  have 2: "x (?ws ! n) = left - shape_size + int (Suc n mod 264)"
    using cur by (simp add: left_def shape_size_def)
  have 3: "left - shape_size \<le> x (?ws ! n)" "x (?ws ! n) \<le> right"
    using range by (simp_all add: left_def shape_size_def right_def)
  from 1 2 3 show ?thesis by blast
qed

text \<open>The 264th sample is the first one after the reset.\<close>

theorem published_x_sequence_witness:
  "263 < length (written (run_publisher_application
      \<lparr>color = [], x = 0, y = 0, shapesize = 0, fillKind = SOLID_FILL\<rparr> never_shutdown 264 ''RED'')) \<and>
   x (written (run_publisher_application
      \<lparr>color = [], x = 0, y = 0, shapesize = 0, fillKind = SOLID_FILL\<rparr> never_shutdown 264 ''RED'') ! 263) = - 15"
proof -
  have len: "length (written (run_publisher_application
      \<lparr>color = [], x = 0, y = 0, shapesize = 0, fillKind = SOLID_FILL\<rparr> never_shutdown 264 ''RED'')) = 264"
    using length_written_run [of 264 never_shutdown 264] by (simp add: never_shutdown_def)
  then have h: "263 < length (written (run_publisher_application
      \<lparr>color = [], x = 0, y = 0, shapesize = 0, fillKind = SOLID_FILL\<rparr> never_shutdown 264 ''RED''))"
    by simp
  from published_x_sequence [OF h] h show ?thesis
    by (simp add: left_def shape_size_def)
qed

text \<open>
  Claim C10. The initial value of \<open>y\<close> is \<open>bottom - top / 2 = 271\<close>. The loop started
  with any other value writes the same samples, every \<open>y\<close> written is the value
  computed from the \<open>x\<close> of the same sample, and no \<open>y\<close> written equals the initial
  value.
\<close>

theorem initial_y_never_published:
  "y_initial = 271
   \<and> publish_loop sd sc 0 (left - shape_size) yc d =
       publish_loop sd sc 0 (left - shape_size) y_initial d
   \<and> (\<forall>s \<in> set (written (run_publisher_application d0 sd sc colour)).
         y s = next_y (x s) \<and> y s \<noteq> y_initial)"
proof -
  have init: "y_initial = 271"
    by (simp add: y_initial_def c_div_def bottom_def top_limit_def)
  have "y s = next_y (x s) \<and> y s \<noteq> y_initial"
    if "s \<in> set (written (run_publisher_application d0 sd sc colour))" for s
  proof -
    from that obtain n where "n < length (written (run_publisher_application d0 sd sc colour))"
      and "s = written (run_publisher_application d0 sd sc colour) ! n"
      by (auto simp: in_set_conv_nth)
    then have "y s = next_y (x s)"
      by (simp only: nth_written_run y_tick_sample)
    moreover have "next_y (x s) \<le> 231"
      using next_y_bounds [of "x s"] by simp
    ultimately show ?thesis
      using init by simp
  qed
  with init publish_loop_initial_y [of sd sc 0 "left - shape_size" yc d y_initial]
  show ?thesis by blast
qed

text \<open>One sample asked for: it is written with \<open>x = - 14\<close> and the \<open>y\<close> computed from it.\<close>

theorem initial_y_never_published_witness:
  "written (run_publisher_application
      \<lparr>color = [], x = 0, y = 0, shapesize = 0, fillKind = SOLID_FILL\<rparr> never_shutdown 1 ''RED'') =
     [\<lparr>color = ''RED'', x = - 14, y = next_y (- 14), shapesize = 30, fillKind = SOLID_FILL\<rparr>]
   \<and> next_y (- 14) \<noteq> 271"
proof -
  have w: "written (run_publisher_application
      \<lparr>color = [], x = 0, y = 0, shapesize = 0, fillKind = SOLID_FILL\<rparr> never_shutdown 1 ''RED'') =
     [\<lparr>color = ''RED'', x = - 14, y = next_y (- 14), shapesize = 30, fillKind = SOLID_FILL\<rparr>]"
    using written_run [of 1 1 never_shutdown]
    by (simp add: never_shutdown_def tick_sample_def shape_size_def)
  from initial_y_never_published [of never_shutdown 1 0
      "\<lparr>color = [], x = 0, y = 0, shapesize = 0, fillKind = SOLID_FILL\<rparr>"
      "\<lparr>color = [], x = 0, y = 0, shapesize = 0, fillKind = SOLID_FILL\<rparr>" "''RED''"]
  have "next_y (- 14) \<noteq> 271"
    unfolding w by simp
  with w show ?thesis by blast
qed

text \<open>
  Claim C1, amended. Every \<open>y\<close> written is the sum of the truncated half of
  \<open>bottom - top\<close> and \<open>AMPLITUDE * sin (FREQUENCY * x)\<close>, converted to an integer by
  dropping the fraction of the whole sum; the sum is never negative, so this is the half
  plus the floor (not the rounding) of the sine term. It is a function of \<open>x\<close> alone.
\<close>

theorem published_y_truncated:
  assumes "s \<in> set (written (run_publisher_application d0 sd sc colour))"
  shows "y s = float_to_int (real_of_int (c_div (bottom - top_limit) 2)
                             + AMPLITUDE * sin (FREQUENCY * real_of_int (x s)))
         \<and> y s = c_div (bottom - top_limit) 2
                 + \<lfloor>AMPLITUDE * sin (FREQUENCY * real_of_int (x s))\<rfloor>"
proof -
  from assms obtain n where "n < length (written (run_publisher_application d0 sd sc colour))"
    and "s = written (run_publisher_application d0 sd sc colour) ! n"
    by (auto simp: in_set_conv_nth)
  then have "y s = next_y (x s)"
    by (simp only: nth_written_run y_tick_sample)
  then show ?thesis
    using next_y_floor [of "x s"] by (simp add: next_y_def half_extent AMPLITUDE_def)
qed

text \<open>The first sample written.\<close>

theorem published_y_truncated_witness:
  "\<lparr>color = ''RED'', x = - 14, y = next_y (- 14), shapesize = 30, fillKind = SOLID_FILL\<rparr>
     \<in> set (written (run_publisher_application
      \<lparr>color = [], x = 0, y = 0, shapesize = 0, fillKind = SOLID_FILL\<rparr> never_shutdown 1 ''RED''))
   \<and> next_y (- 14) = 131 + \<lfloor>100 * sin (FREQUENCY * (- 14))\<rfloor>"
proof -
  have w: "written (run_publisher_application
      \<lparr>color = [], x = 0, y = 0, shapesize = 0, fillKind = SOLID_FILL\<rparr> never_shutdown 1 ''RED'') =
     [\<lparr>color = ''RED'', x = - 14, y = next_y (- 14), shapesize = 30, fillKind = SOLID_FILL\<rparr>]"
    using written_run [of 1 1 never_shutdown]
    by (simp add: never_shutdown_def tick_sample_def shape_size_def)
  then have h: "\<lparr>color = ''RED'', x = - 14, y = next_y (- 14), shapesize = 30, fillKind = SOLID_FILL\<rparr>
     \<in> set (written (run_publisher_application
      \<lparr>color = [], x = 0, y = 0, shapesize = 0, fillKind = SOLID_FILL\<rparr> never_shutdown 1 ''RED''))"
    by simp
  from published_y_truncated [OF h] have "next_y (- 14) = 131 + \<lfloor>100 * sin (FREQUENCY * (- 14))\<rfloor>"
    by (simp add: half_extent AMPLITUDE_def)
  with h show ?thesis by blast
qed

text \<open>
  Claim C1, as the specification states it, fails on the 16th sample: there \<open>x = 1\<close>,
  the sine term is about 4.748, the program writes \<open>y = 135\<close> and the formula of the
  specification gives 136.
\<close>

theorem published_y_not_rounded:
  "x (written (run_publisher_application
      \<lparr>color = [], x = 0, y = 0, shapesize = 0, fillKind = SOLID_FILL\<rparr> never_shutdown 16 ''RED'') ! 15) = 1
   \<and> y (written (run_publisher_application
      \<lparr>color = [], x = 0, y = 0, shapesize = 0, fillKind = SOLID_FILL\<rparr> never_shutdown 16 ''RED'') ! 15) = 135
   \<and> spec_y 1 = 136"
proof -
  have "length (written (run_publisher_application
      \<lparr>color = [], x = 0, y = 0, shapesize = 0, fillKind = SOLID_FILL\<rparr> never_shutdown 16 ''RED'')) = 16"
    using length_written_run [of 16 never_shutdown 16] by (simp add: never_shutdown_def)
  then have "15 < length (written (run_publisher_application
      \<lparr>color = [], x = 0, y = 0, shapesize = 0, fillKind = SOLID_FILL\<rparr> never_shutdown 16 ''RED''))"
    by simp
  then have "written (run_publisher_application
      \<lparr>color = [], x = 0, y = 0, shapesize = 0, fillKind = SOLID_FILL\<rparr> never_shutdown 16 ''RED'') ! 15 =
      tick_sample (\<lparr>color = [], x = 0, y = 0, shapesize = 0, fillKind = SOLID_FILL\<rparr>
        \<lparr>color := ''RED'', shapesize := shape_size, fillKind := SOLID_FILL\<rparr>) 15"
    by (rule nth_written_run)
  moreover have "spec_y 1 = 136"
    using round_one by (simp only: spec_y_def half_extent)
  ultimately show ?thesis
    by (simp add: tick_sample_def next_y_one)
qed

subsection \<open>Claims about the subscriber\<close>

text \<open>
  Claim C2. With the bounds of the palette in order, \<^verbatim>\<open>process_data\<close> returns, and
  the log lines it passes to \<open>display_log\<close> are, one for each notification of the batch
  without valid data and in the order of the batch, the message of the specification:
  for the key colour \<open>k\<close> of the instance, \<open>Instance with key k has dropped from the
  databus\<close> when the instance state is not-alive-no-writers and the sample state is
  not-read, and \<open>Instance with key k changed to\<close> followed by the instance state in
  every other case. The log afterwards is the log after pushing these messages.
\<close>

theorem lifecycle_message_per_notification:
  assumes "MIN_COLOUR env \<le> MAX_COLOUR env"
  shows "\<exists>count st'. process_data env reader st = Some (count, st') \<and>
           logged (drop (length (calls st)) (calls st')) =
             map (spec_lifecycle_message env reader)
                 (filter (\<lambda>s. \<not> valid (info s)) (take_samples reader)) \<and>
           log_data st' =
             log_data (fold display_log
               (map (spec_lifecycle_message env reader)
                    (filter (\<lambda>s. \<not> valid (info s)) (take_samples reader))) st)"
proof -
  from process_samples_eq [OF assms, of reader "take_samples reader" 0 st]
  obtain st' where
    "process_samples env (key_value reader) (take_samples reader) 0 st =
       Some (0 + int (length (filter (\<lambda>s. valid (info s)) (take_samples reader))), st')"
    "calls st' = calls st @
       map (\<lambda>s. if valid (info s) then Display_sample (data s)
                 else Display_log (spec_lifecycle_message env reader s)) (take_samples reader)"
    "log_data st' =
       log_data (fold display_log
         (map (spec_lifecycle_message env reader)
              (filter (\<lambda>s. \<not> valid (info s)) (take_samples reader))) st)"
    by blast
  then show ?thesis
    by (simp add: process_data_def logged_map_calls)
qed

text \<open>A valid red sample, then the notice that red has no writers left: one log line.\<close>

theorem lifecycle_message_per_notification_witness:
  "\<exists>count st'. process_data example_env example_reader initial_display = Some (count, st') \<and>
     logged (calls st') = [''Instance with key RED has dropped from the databus''] \<and>
     log_data st' = [''Instance with key RED has dropped from the databus'']"
proof -
  have h: "MIN_COLOUR example_env \<le> MAX_COLOUR example_env"
    by (simp add: example_env_def)
  have inv: "filter (\<lambda>s. \<not> valid (info s)) (take_samples example_reader) = [red_dropped]"
    by (simp add: example_reader_def red_sample_def red_dropped_def)
  have msg: "spec_lifecycle_message example_env example_reader red_dropped =
             ''Instance with key RED has dropped from the databus''"
    by (simp add: spec_lifecycle_message_def example_reader_def red_dropped_def default_shape_def)
  have log: "log_data (display_log m initial_display) = [m]" for m
    by (simp add: log_data_display_log initial_display_def)
  have c0: "calls initial_display = []"
    by (simp add: initial_display_def)
  from lifecycle_message_per_notification [OF h, of example_reader initial_display]
  show ?thesis
    unfolding inv by (simp add: msg log c0)
qed

text \<open>
  Claim C5. With the bounds of the palette in order, \<^verbatim>\<open>process_data\<close> on a batch with
  \<open>k\<close> notifications with valid data and \<open>m\<close> without returns \<open>k\<close>, calls
  \<open>display_sample\<close> on the data of each of the \<open>k\<close>, in order, and calls
  \<open>display_log\<close> exactly \<open>m\<close> times.
\<close>

theorem process_data_counts:
  assumes "MIN_COLOUR env \<le> MAX_COLOUR env"
  shows "\<exists>st'. process_data env reader st =
                 Some (int (length (filter (\<lambda>s. valid (info s)) (take_samples reader))), st') \<and>
           shown (drop (length (calls st)) (calls st')) =
             map data (filter (\<lambda>s. valid (info s)) (take_samples reader)) \<and>
           length (logged (drop (length (calls st)) (calls st'))) =
             length (filter (\<lambda>s. \<not> valid (info s)) (take_samples reader))"
proof -
  from process_samples_eq [OF assms, of reader "take_samples reader" 0 st]
  obtain st' where
    "process_samples env (key_value reader) (take_samples reader) 0 st =
       Some (0 + int (length (filter (\<lambda>s. valid (info s)) (take_samples reader))), st')"
    "calls st' = calls st @
       map (\<lambda>s. if valid (info s) then Display_sample (data s)
                 else Display_log (spec_lifecycle_message env reader s)) (take_samples reader)"
    by blast
  then show ?thesis
    by (simp add: process_data_def logged_map_calls shown_map_calls)
qed


text \<open>The same batch: the count is 1, one sample is shown, one line is logged.\<close>

theorem process_data_counts_witness:
  "\<exists>st'. process_data example_env example_reader initial_display = Some (1, st') \<and>
     shown (calls st') = [data red_sample] \<and> length (logged (calls st')) = 1"
proof -
  have h: "MIN_COLOUR example_env \<le> MAX_COLOUR example_env"
    by (simp add: example_env_def)
  have inv: "filter (\<lambda>s. \<not> valid (info s)) (take_samples example_reader) = [red_dropped]"
    and val: "filter (\<lambda>s. valid (info s)) (take_samples example_reader) = [red_sample]"
    by (simp_all add: example_reader_def red_sample_def red_dropped_def)
  from process_data_counts [OF h, of example_reader initial_display]
  show ?thesis
    unfolding inv val by (simp add: initial_display_def)
qed

text \<open>
  Claim C6. After the calls of \<open>display_log\<close> with the messages \<open>ms\<close>, in this order,
  from the empty log of the program start, the log holds the last five of \<open>ms\<close> (all
  of them when there are fewer), in their order, so never more than five; and one call
  appends its message, dropping the oldest entry and nothing else when the log already
  holds five.
\<close>

theorem log_holds_last_five:
  "log_data (fold display_log ms initial_display) = drop (length ms - 5) ms
   \<and> length (log_data (fold display_log ms initial_display)) \<le> 5
   \<and> log_data (display_log m st) =
       (if length (log_data st) < 5 then log_data st @ [m] else tl (log_data st) @ [m])"
proof -
  have "length (log_data initial_display) \<le> 5"
    by (simp add: initial_display_def)
  then have "log_data (fold display_log ms initial_display) =
             drop (length (log_data initial_display @ ms) - 5) (log_data initial_display @ ms)"
    by (rule log_data_fold)
  then have 1: "log_data (fold display_log ms initial_display) = drop (length ms - 5) ms"
    by (simp add: initial_display_def)
  then have 2: "length (log_data (fold display_log ms initial_display)) \<le> 5"
    by simp
  from 1 2 log_data_display_log [of m st] show ?thesis by blast
qed

text \<open>
  Claim C7. With the bounds of the palette in order, \<open>display_sample\<close> on a shape
  whose colour equals no entry of the palette returns, makes no call into ncurses, leaves
  the log as it is and logs no message.
\<close>

theorem unknown_colour_not_rendered:
  assumes "MIN_COLOUR env \<le> MAX_COLOUR env"
    and "\<forall>c. MIN_COLOUR env \<le> c \<and> c < MAX_COLOUR env \<longrightarrow> color shape \<noteq> ToStr env c"
  shows "\<exists>st'. display_sample env shape st = Some st' \<and>
           terminal st' = terminal st \<and> log_data st' = log_data st \<and>
           logged (calls st') = logged (calls st)"
proof -
  from assms(2) have "first_match env shape = None"
    by (simp only: first_match_None)
  then show ?thesis
    unfolding display_sample_eq [OF assms(1)] by (simp add: logged_append)
qed

text \<open>Pink is not in the palette of the example.\<close>

theorem unknown_colour_not_rendered_witness:
  "\<exists>st'. display_sample example_env (default_shape\<lparr>color := ''PINK''\<rparr>) initial_display = Some st' \<and>
     terminal st' = [] \<and> log_data st' = [] \<and> logged (calls st') = []"
proof -
  have h1: "MIN_COLOUR example_env \<le> MAX_COLOUR example_env"
    by (simp add: example_env_def)
  have h2: "\<forall>c. MIN_COLOUR example_env \<le> c \<and> c < MAX_COLOUR example_env \<longrightarrow>
              color (default_shape\<lparr>color := ''PINK''\<rparr>) \<noteq> ToStr example_env c"
    by (simp add: example_env_def example_ToStr_def)
  from unknown_colour_not_rendered [OF h1 h2, of initial_display]
  show ?thesis by (simp add: initial_display_def)
qed

text \<open>
  Claim C9. With the bounds of the palette in order, \<open>display_sample\<close> returns; when
  no entry of the palette equals the colour it writes to no row, and otherwise it writes
  the colour at column 0 and the sample at column 10 of the row numbered by the first
  entry that equals the colour, and to no other row.
\<close>

theorem display_sample_one_row:
  assumes "MIN_COLOUR env \<le> MAX_COLOUR env"
  shows "\<exists>st'. display_sample env shape st = Some st' \<and>
           (case first_match env shape of
              None \<Rightarrow> \<forall>r. row_writes r (terminal st') = row_writes r (terminal st)
            | Some c \<Rightarrow>
                row_writes c (terminal st') =
                  row_writes c (terminal st) @ [(0, color shape), (10, print_shape env shape)] \<and>
                (\<forall>r. r \<noteq> c \<longrightarrow> row_writes r (terminal st') = row_writes r (terminal st)))"
  unfolding display_sample_eq [OF assms]
  by (simp add: row_writes_append row_writes_render split: option.split)

text \<open>Red is entry 2 of the example: row 2 is written, row 3 is not.\<close>

theorem display_sample_one_row_witness:
  "\<exists>st'. display_sample example_env (data red_sample) initial_display = Some st' \<and>
     row_writes 2 (terminal st') = [(0, ''RED''), (10, ''RED'')] \<and>
     row_writes 3 (terminal st') = []"
proof -
  have h: "MIN_COLOUR example_env \<le> MAX_COLOUR example_env"
    by (simp add: example_env_def)
  have "\<forall>i. MIN_COLOUR example_env \<le> i \<and> i < 2 \<longrightarrow>
          color (data red_sample) \<noteq> ToStr example_env i"
    by (simp add: example_env_def example_ToStr_def red_sample_def)
  then have m: "first_match example_env (data red_sample) = Some 2"
    unfolding first_match_Some
    by (simp add: example_env_def example_ToStr_def red_sample_def)
  from display_sample_one_row [OF h, of "data red_sample" initial_display]
  obtain st' where "display_sample example_env (data red_sample) initial_display = Some st'"
    and "row_writes 2 (terminal st') =
           row_writes 2 (terminal initial_display) @
           [(0, color (data red_sample)), (10, print_shape example_env (data red_sample))]"
    and "\<forall>r. r \<noteq> 2 \<longrightarrow> row_writes r (terminal st') = row_writes r (terminal initial_display)"
    unfolding m by auto
  then show ?thesis
    by (simp add: initial_display_def example_env_def red_sample_def)
qed

text \<open>
  Claim C8, amended. With \<open>sample_count = 0\<close> neither loop runs its body, whatever the
  shutdown flag: the publisher writes nothing and goes on to dispose the instance, the
  subscriber returns without a call of \<^verbatim>\<open>dispatch\<close>.
\<close>

theorem zero_sample_count_no_iteration:
  "run_publisher_application d0 sd 0 colour = [Register_instance d0, Dispose_instance (color d0)]
   \<and> run_subscriber_application env sd dispatch 0 st = Some (0, 0, st)"
proof -
  have "publish_loop sd 0 0 xc yc d = []" for xc yc d
    by (rule publish_loop_stop) simp
  then have "run_publisher_application d0 sd 0 colour =
             [Register_instance d0, Dispose_instance (color d0)]"
    by (simp add: run_publisher_application_def Let_def)
  moreover have "run_subscriber_application env sd dispatch 0 st = Some (0, 0, st)"
    unfolding run_subscriber_application_def
    by (subst subscriber_loop.simps) simp
  ultimately show ?thesis by blast
qed

text \<open>
  Claim C8, as the specification states it, fails: with \<open>sample_count = 0\<close> and a flag
  that is never set, both loops end at once, on the count.
\<close>

theorem zero_sample_count_stops_at_once:
  "run_publisher_application default_shape never_shutdown 0 ''RED'' =
     [Register_instance default_shape, Dispose_instance []]
   \<and> run_subscriber_application example_env never_shutdown example_dispatch 0 initial_display =
     Some (0, 0, initial_display)"
proof -
  have "publish_loop never_shutdown 0 0 xc yc d = []" for xc yc d
    by (rule publish_loop_stop) simp
  then have "run_publisher_application default_shape never_shutdown 0 ''RED'' =
             [Register_instance default_shape, Dispose_instance []]"
    by (simp add: run_publisher_application_def Let_def default_shape_def)
  moreover have "run_subscriber_application example_env never_shutdown example_dispatch 0
                   initial_display = Some (0, 0, initial_display)"
    unfolding run_subscriber_application_def
    by (subst subscriber_loop.simps) simp
  ultimately show ?thesis by blast
qed

end
